theory Spec2Isabelle
  imports
    Main
    "HOL-Library.Word"
    "HOL-Library.Multiset"
    "HOL-Library.Char_ord"
    "HOL-Library.List_Lexorder"
    "HOL-Library.AList"
begin

unbundle bit_operations_syntax

section \<open>The object package of Nuru: runtime values\<close>

text \<open>
  The embedding follows \<^verbatim>\<open>src/object/object.go\<close>. A Go \<^verbatim>\<open>string\<close> is a byte
  sequence and is modelled by \<^typ>\<open>string\<close> (a list of 8-bit characters); \<^verbatim>\<open>int64\<close> and
  \<^verbatim>\<open>uint64\<close> are 64-bit words, read with \<^const>\<open>sint\<close> and \<^const>\<open>uint\<close>. A
  \<^verbatim>\<open>float64\<close> is represented by its 64-bit pattern. An iteration cursor
  (\<^verbatim>\<open>offset int\<close>) starts at 0 and is only ever set to 0 or incremented, so it is a
  natural number. Object references held in fields are never nil.
\<close>

subsection \<open>Library functions of Go used by the package\<close>

text \<open>\<^verbatim>\<open>strings.Join(elems, sep)\<close>.\<close>

fun Join :: "string list \<Rightarrow> string \<Rightarrow> string" where
  "Join [] sep = []"
| "Join [x] sep = x"
| "Join (x # y # ys) sep = x @ sep @ Join (y # ys) sep"

text \<open>\<^verbatim>\<open>fmt.Sprintf("%d", v)\<close>: decimal digits, with a minus sign only for a negative value.\<close>

definition digit_char :: "nat \<Rightarrow> char" where
  "digit_char d = ''0123456789'' ! d"

function decimal :: "nat \<Rightarrow> string" where
  "decimal n = (if n < 10 then [digit_char n] else decimal (n div 10) @ [digit_char (n mod 10)])"
  by pat_completeness auto
termination
  by (relation "measure (\<lambda>n. n)") auto

declare decimal.simps [simp del]

definition Sprintf_d :: "int \<Rightarrow> string" where
  "Sprintf_d i = (if i < 0 then CHR ''-'' # decimal (nat (- i)) else decimal (nat i))"

text \<open>
  \<^verbatim>\<open>hash/fnv\<close>, \<^verbatim>\<open>New64a\<close>, \<^verbatim>\<open>Write\<close> and \<^verbatim>\<open>Sum64\<close>: the 64-bit FNV-1a hash. Starting
  from the offset basis, each byte is xor-ed into the hash, which is then multiplied by
  the FNV prime (modulo \<open>2^64\<close>).
\<close>

definition offset64 :: "64 word" where
  "offset64 = 14695981039346656037"

definition prime64 :: "64 word" where
  "prime64 = 1099511628211"

definition fnv64a_Write :: "64 word \<Rightarrow> string \<Rightarrow> 64 word" where
  "fnv64a_Write h bs = fold (\<lambda>c hash. (hash XOR of_char c) * prime64) bs h"

definition fnv64a :: "string \<Rightarrow> 64 word" where
  "fnv64a bs = fnv64a_Write offset64 bs"

text \<open>
  \<^verbatim>\<open>string(b)\<close> for a byte \<open>b\<close>: Go converts the integer to the UTF-8 encoding of the code
  point \<open>b\<close>: one byte below 128, two bytes from 128 on.
\<close>

definition string_of_byte :: "char \<Rightarrow> string" where
  "string_of_byte c =
     (let n = (of_char c :: nat)
      in if n < 128 then [c] else [char_of (192 + n div 64), char_of (128 + n mod 64)])"

text \<open>
  \<^verbatim>\<open>sort.Strings\<close> sorts into increasing order of Go's \<^verbatim>\<open><\<close> on strings, the
  lexicographic order of the bytes. This is the order of \<^typ>\<open>string\<close> given by
  the theory \<open>List_Lexorder\<close> over the theory \<open>Char_ord\<close> of the library; the sorted
  arrangement of a list is unique, so \<^const>\<open>sort\<close> returns what \<^verbatim>\<open>sort.Strings\<close> leaves
  in the slice.
\<close>

definition sort_Strings :: "string list \<Rightarrow> string list" where
  "sort_Strings keys = sort keys"

subsection \<open>Object kinds\<close>

type_synonym ObjectType = string

definition INTEGER_OBJ :: ObjectType where "INTEGER_OBJ = ''NAMBA''"
definition FLOAT_OBJ :: ObjectType where "FLOAT_OBJ = ''DESIMALI''"
definition BOOLEAN_OBJ :: ObjectType where "BOOLEAN_OBJ = ''BOOLEAN''"
definition NULL_OBJ :: ObjectType where "NULL_OBJ = ''TUPU''"
definition RETURN_VALUE_OBJ :: ObjectType where "RETURN_VALUE_OBJ = ''RUDISHA''"
definition ERROR_OBJ :: ObjectType where "ERROR_OBJ = ''KOSA''"
definition FUNCTION_OBJ :: ObjectType where "FUNCTION_OBJ = ''UNDO (FUNCTION)''"
definition STRING_OBJ :: ObjectType where "STRING_OBJ = ''NENO''"
definition BUILTIN_OBJ :: ObjectType where "BUILTIN_OBJ = ''YA_NDANI''"
definition ARRAY_OBJ :: ObjectType where "ARRAY_OBJ = ''ORODHA''"
definition DICT_OBJ :: ObjectType where "DICT_OBJ = ''KAMUSI''"
definition CONTINUE_OBJ :: ObjectType where "CONTINUE_OBJ = ''ENDELEA''"
definition BREAK_OBJ :: ObjectType where "BREAK_OBJ = ''VUNJA''"

lemmas ObjectType_defs =
  INTEGER_OBJ_def FLOAT_OBJ_def BOOLEAN_OBJ_def NULL_OBJ_def RETURN_VALUE_OBJ_def
  ERROR_OBJ_def FUNCTION_OBJ_def STRING_OBJ_def BUILTIN_OBJ_def ARRAY_OBJ_def DICT_OBJ_def
  CONTINUE_OBJ_def BREAK_OBJ_def

subsection \<open>Values\<close>

text \<open>
  Modelled from the spec: package \<^verbatim>\<open>ast\<close> is not among the sources. This package uses
  an \<^verbatim>\<open>*ast.Identifier\<close> and an \<^verbatim>\<open>*ast.BlockStatement\<close> only through their
  \<^verbatim>\<open>String()\<close> methods (the parameter name, the body's rendering), so each node is
  represented by the text that method returns.
\<close>

datatype Identifier = Identifier (Identifier_String: string)

datatype BlockStatement = BlockStatement (BlockStatement_String: string)

record HashKey =
  HashKey_Type :: ObjectType
  HashKey_Value :: "64 word"

datatype 'o DictPair = DictPair (Key: 'o) (Value: 'o)

text \<open>
  The variants of \<^verbatim>\<open>Object\<close>. \<^verbatim>\<open>Function.Env\<close> and \<^verbatim>\<open>Builtin.Fn\<close> are references
  that no function of this file looks into; they are addresses. \<^verbatim>\<open>Dict.Pairs\<close>, a Go
  map, is the list of its entries, whose keys are distinct in a map.
\<close>

datatype object =
    Integer "64 word"
  | Float "64 word"
  | Boolean bool
  | Null
  | ReturnValue object
  | Error string
  | Function "Identifier list" BlockStatement nat
  | String string nat
  | Builtin nat
  | Array "object list" nat
  | Dict "(HashKey \<times> object DictPair) list" nat
  | Continue
  | Break

type_synonym Pairs = "(HashKey \<times> object DictPair) list"

text \<open>
  \<^verbatim>\<open>strconv.FormatFloat(v, 'f', -1, 64)\<close> is a parameter \<open>fmt\<close> of the model, from the
  bit pattern of a float to its text.

  Go leaves open the order in which a \<^verbatim>\<open>range\<close> statement visits the entries of a map,
  and it may change from one statement to the next. The order is an input of the model:
  a ranking \<open>rk\<close> of the hash keys, which may depend on the map, and \<^verbatim>\<open>range\<close> visits the
  entries by increasing rank. Every order of the entries of a map arises from some ranking,
  and every ranking gives an order in which each entry is visited once. One call of a
  method works with one ranking, so two maps with the same entries are visited alike
  within that call; two calls may come with two rankings.

  No \<^verbatim>\<open>Inspect\<close>, \<^verbatim>\<open>Type\<close> or \<^verbatim>\<open>HashKey\<close> method assigns to a field of its receiver:
  these methods are functions to their result. \<^verbatim>\<open>Next\<close> and \<^verbatim>\<open>Reset\<close> assign, and
  return the receiver as they leave it.
\<close>

type_synonym ranking = "Pairs \<Rightarrow> HashKey \<Rightarrow> nat"

definition range_Pairs :: "ranking \<Rightarrow> Pairs \<Rightarrow> object DictPair list" where
  "range_Pairs rk ps = map snd (sort_key (\<lambda>e. rk ps (fst e)) ps)"

lemma set_range_Pairs [simp]: "set (range_Pairs rk ps) = snd ` set ps"
  by (simp add: range_Pairs_def)

lemma mset_range_Pairs [simp]: "mset (range_Pairs rk ps) = mset (map snd ps)"
  by (simp add: range_Pairs_def)

lemma length_range_Pairs [simp]: "length (range_Pairs rk ps) = length ps"
  by (simp add: range_Pairs_def)

lemma range_Pairs_Nil [simp]: "range_Pairs rk [] = []"
  by (simp add: range_Pairs_def)

lemma range_Pairs_single [simp]: "range_Pairs rk [e] = [snd e]"
  by (simp add: range_Pairs_def)

subsection \<open>Type and Inspect\<close>

fun Type :: "object \<Rightarrow> ObjectType" where
  "Type (Integer i) = INTEGER_OBJ"
| "Type (Float f) = FLOAT_OBJ"
| "Type (Boolean b) = BOOLEAN_OBJ"
| "Type Null = NULL_OBJ"
| "Type (ReturnValue v) = RETURN_VALUE_OBJ"
| "Type (Error m) = ERROR_OBJ"
| "Type (Function ps body env) = FUNCTION_OBJ"
| "Type (String v off) = STRING_OBJ"
| "Type (Builtin fn) = BUILTIN_OBJ"
| "Type (Array es off) = ARRAY_OBJ"
| "Type (Dict ps off) = DICT_OBJ"
| "Type Continue = CONTINUE_OBJ"
| "Type Break = BREAK_OBJ"

lemma size_Key_Value_less:
  assumes "(h, p) \<in> set ps"
  shows "size (Key p) < Suc (size_list (size_prod (\<lambda>_. 0) (size_DictPair size)) ps)"
    and "size (Value p) < Suc (size_list (size_prod (\<lambda>_. 0) (size_DictPair size)) ps)"
proof -
  have "size_prod (\<lambda>_. 0) (size_DictPair size) (h, p)
          \<le> size_list (size_prod (\<lambda>_. 0) (size_DictPair size)) ps"
    using assms by (simp add: size_list_estimation')
  moreover have "size (Key p) < size_DictPair size p" "size (Value p) < size_DictPair size p"
    by (cases p; simp)+
  ultimately show
    "size (Key p) < Suc (size_list (size_prod (\<lambda>_. 0) (size_DictPair size)) ps)"
    "size (Value p) < Suc (size_list (size_prod (\<lambda>_. 0) (size_DictPair size)) ps)"
    by simp_all
qed

function Inspect :: "ranking \<Rightarrow> (64 word \<Rightarrow> string) \<Rightarrow> object \<Rightarrow> string" where
  "Inspect rk fmt (Integer i) = Sprintf_d (sint i)"
| "Inspect rk fmt (Float f) = fmt f"
| "Inspect rk fmt (Boolean b) = (if b then ''kweli'' else ''sikweli'')"
| "Inspect rk fmt Null = ''null''"
| "Inspect rk fmt (ReturnValue v) = Inspect rk fmt v"
| "Inspect rk fmt (Error m) = (CHR 0x1B # ''[31mKosa: '' @ CHR 0x1B # ''[0m'') @ m"
| "Inspect rk fmt (Function ps body env) =
     ''unda'' @ ''('' @ Join (map Identifier_String ps) '', '' @ [CHR '')'', CHR '' '', CHR ''{'', CHR 0x0A]
       @ BlockStatement_String body @ [CHR 0x0A, CHR ''}'']"
| "Inspect rk fmt (String v off) = v"
| "Inspect rk fmt (Builtin fn) = ''builtin function''"
| "Inspect rk fmt (Array es off) = ''['' @ Join (map (Inspect rk fmt) es) '', '' @ '']''"
| "Inspect rk fmt (Dict ps off) =
     ''{'' @ Join (map (\<lambda>pair. Inspect rk fmt (Key pair) @ '': '' @ Inspect rk fmt (Value pair))
                    (range_Pairs rk ps)) '', '' @ ''}''"
| "Inspect rk fmt Continue = ''continue''"
| "Inspect rk fmt Break = ''break''"
  by pat_completeness auto
termination
proof (relation "measure (\<lambda>(rk, fmt, v). size v)", goal_cases)
  case 1
  show ?case by simp
next
  case (2 rk fmt v)
  show ?case by simp
next
  case (3 rk fmt es off e)
  then have "size e \<le> size_list size es" by (rule size_list_estimation') simp
  then show ?case by simp
next
  case (4 rk fmt ps off pair)
  then obtain h where "(h, pair) \<in> set ps" by auto
  then show ?case using size_Key_Value_less(1) by simp
next
  case (5 rk fmt ps off pair)
  then obtain h where "(h, pair) \<in> set ps" by auto
  then show ?case using size_Key_Value_less(2) by simp
qed

subsection \<open>Hash keys\<close>

text \<open>
  \<^verbatim>\<open>uint64(i.Value)\<close>: the conversion of a signed 64-bit value to an unsigned one, the
  value modulo \<open>2^64\<close>.
\<close>

definition uint64 :: "64 word \<Rightarrow> 64 word" where
  "uint64 v = word_of_int (sint v)"

fun Boolean_HashKey :: "object \<Rightarrow> HashKey" where
  "Boolean_HashKey (Boolean b) =
     (let value = (if b then 1 else 0)
      in \<lparr>HashKey_Type = Type (Boolean b), HashKey_Value = value\<rparr>)"

fun Integer_HashKey :: "object \<Rightarrow> HashKey" where
  "Integer_HashKey (Integer i) = \<lparr>HashKey_Type = Type (Integer i), HashKey_Value = uint64 i\<rparr>"

fun Float_HashKey :: "ranking \<Rightarrow> (64 word \<Rightarrow> string) \<Rightarrow> object \<Rightarrow> HashKey" where
  "Float_HashKey rk fmt (Float f) =
     \<lparr>HashKey_Type = Type (Float f), HashKey_Value = fnv64a (Inspect rk fmt (Float f))\<rparr>"

fun String_HashKey :: "object \<Rightarrow> HashKey" where
  "String_HashKey (String v off) =
     \<lparr>HashKey_Type = Type (String v off), HashKey_Value = fnv64a v\<rparr>"

text \<open>
  The interface \<^verbatim>\<open>Hashable\<close>: only the four variants above have the method
  \<^verbatim>\<open>HashKey\<close>. For the others the type assertion \<^verbatim>\<open>obj.(Hashable)\<close> fails, which is
  \<^const>\<open>None\<close> here. (The record type has taken the name \<open>HashKey\<close>.)
\<close>

fun Hashable_HashKey :: "ranking \<Rightarrow> (64 word \<Rightarrow> string) \<Rightarrow> object \<Rightarrow> HashKey option" where
  "Hashable_HashKey rk fmt (Boolean b) = Some (Boolean_HashKey (Boolean b))"
| "Hashable_HashKey rk fmt (Integer i) = Some (Integer_HashKey (Integer i))"
| "Hashable_HashKey rk fmt (Float f) = Some (Float_HashKey rk fmt (Float f))"
| "Hashable_HashKey rk fmt (String v off) = Some (String_HashKey (String v off))"
| "Hashable_HashKey rk fmt obj = None"

text \<open>
  Go's map operations on \<^verbatim>\<open>Dict.Pairs\<close>, as the evaluator uses them: \<^verbatim>\<open>m[k] = v\<close> and
  \<^verbatim>\<open>v, ok := m[k]\<close>.
\<close>

definition Pairs_store :: "HashKey \<Rightarrow> object DictPair \<Rightarrow> Pairs \<Rightarrow> Pairs" where
  "Pairs_store k v ps = AList.update k v ps"

definition Pairs_lookup :: "Pairs \<Rightarrow> HashKey \<Rightarrow> object DictPair option" where
  "Pairs_lookup ps k = map_of ps k"

subsection \<open>Iteration: Next and Reset\<close>

text \<open>
  A method with a pointer receiver returns its results together with the receiver as the
  call leaves it. A returned pair \<^verbatim>\<open>(nil, nil)\<close> is \<^const>\<open>None\<close>.
\<close>

fun String_Next :: "object \<Rightarrow> (object \<times> object) option \<times> object" where
  "String_Next (String v off) =
     (let offset = off
      in if length v > offset
         then (Some (Integer (word_of_nat offset), String (string_of_byte (v ! offset)) 0),
               String v (offset + 1))
         else (None, String v off))"

fun String_Reset :: "object \<Rightarrow> object" where
  "String_Reset (String v off) = String v 0"

fun Array_Next :: "object \<Rightarrow> (object \<times> object) option \<times> object" where
  "Array_Next (Array es off) =
     (let idx = off
      in if length es > idx
         then (Some (Integer (word_of_nat idx), es ! idx), Array es (idx + 1))
         else (None, Array es off))"

fun Array_Reset :: "object \<Rightarrow> object" where
  "Array_Reset (Array es off) = Array es 0"

text \<open>
  \<^verbatim>\<open>Dict.Next\<close>. The first loop fills the map \<open>dict\<close> from rendered key to pair and the
  slice \<open>keys\<close>; \<open>Dict_Next_scan\<close> is the second loop, over the sorted keys, with the
  counter \<open>idx\<close>. \<^verbatim>\<open>dict[k]\<close> of a missing key is the zero pair, whose two fields are nil.
\<close>

fun Dict_Next_scan ::
  "(string \<rightharpoonup> object DictPair) \<Rightarrow> string list \<Rightarrow> nat \<Rightarrow> Pairs \<Rightarrow> nat
     \<Rightarrow> (object \<times> object) option \<times> object" where
  "Dict_Next_scan dict [] idx ps off = (None, Dict ps off)"
| "Dict_Next_scan dict (k # ks) idx ps off =
     (if off = idx
      then (case dict k of
              Some pair \<Rightarrow> (Some (Key pair, Value pair), Dict ps (off + 1))
            | None \<Rightarrow> (None, Dict ps (off + 1)))
      else Dict_Next_scan dict ks (idx + 1) ps off)"

fun Dict_Next ::
  "ranking \<Rightarrow> (64 word \<Rightarrow> string) \<Rightarrow> object \<Rightarrow> (object \<times> object) option \<times> object" where
  "Dict_Next rk fmt (Dict ps off) =
     (let vs = range_Pairs rk ps;
          dict = fold (\<lambda>v m. m(Inspect rk fmt (Key v) \<mapsto> v)) vs Map.empty;
          keys = fold (\<lambda>v ks. ks @ [Inspect rk fmt (Key v)]) vs [];
          keys = sort_Strings keys
      in Dict_Next_scan dict keys 0 ps off)"

fun Dict_Reset :: "object \<Rightarrow> object" where
  "Dict_Reset (Dict ps off) = Dict ps 0"

text \<open>
  The interface \<^verbatim>\<open>Iterable\<close>: strings, arrays and dicts have \<^verbatim>\<open>Next\<close> and \<^verbatim>\<open>Reset\<close>;
  for the other variants the type assertion fails (\<^const>\<open>None\<close>).
\<close>

fun Next ::
  "ranking \<Rightarrow> (64 word \<Rightarrow> string) \<Rightarrow> object \<Rightarrow> ((object \<times> object) option \<times> object) option"
  where
  "Next rk fmt (String v off) = Some (String_Next (String v off))"
| "Next rk fmt (Array es off) = Some (Array_Next (Array es off))"
| "Next rk fmt (Dict ps off) = Some (Dict_Next rk fmt (Dict ps off))"
| "Next rk fmt obj = None"

fun Reset :: "object \<Rightarrow> object option" where
  "Reset (String v off) = Some (String_Reset (String v off))"
| "Reset (Array es off) = Some (Array_Reset (Array es off))"
| "Reset (Dict ps off) = Some (Dict_Reset (Dict ps off))"
| "Reset obj = None"

text \<open>
  \<open>calls next n obj\<close>: \<open>n\<close> calls of the method \<open>next\<close> in a row on the same object; the
  results in order, and the object after the last call.
\<close>

fun calls ::
  "(object \<Rightarrow> 'r \<times> object) \<Rightarrow> nat \<Rightarrow> object \<Rightarrow> 'r list \<times> object" where
  "calls next 0 obj = ([], obj)"
| "calls next (Suc n) obj =
     (let (r, obj') = next obj; (rs, obj'') = calls next n obj' in (r # rs, obj''))"

text \<open>
  A caller's sequence of iteration calls on one object; each \<^verbatim>\<open>Next\<close> comes with the
  order in which its \<^verbatim>\<open>range\<close> visits a map.
\<close>

datatype iter_call = Call_Next ranking | Call_Reset

fun run_calls :: "(64 word \<Rightarrow> string) \<Rightarrow> iter_call list \<Rightarrow> object \<Rightarrow> object option" where
  "run_calls fmt [] obj = Some obj"
| "run_calls fmt (Call_Next rk # cs) obj =
     (case Next rk fmt obj of None \<Rightarrow> None | Some (r, obj') \<Rightarrow> run_calls fmt cs obj')"
| "run_calls fmt (Call_Reset # cs) obj =
     (case Reset obj of None \<Rightarrow> None | Some obj' \<Rightarrow> run_calls fmt cs obj')"

subsection \<open>Values whose rendering involves no choice of order\<close>


subsection \<open>Rankings and values for concrete evaluations\<close>

text \<open>
  Two visiting orders: \<open>stored_order\<close> ranks all keys alike, so the entries are visited in
  the order of the list (the sort is stable); \<open>digest_order\<close> visits them by increasing
  digest.
\<close>

definition stored_order :: ranking where
  "stored_order ps h = 0"

definition digest_order :: ranking where
  "digest_order ps h = unat (HashKey_Value h)"



text \<open>
  The Dict \<^verbatim>\<open>{1: "a", "1": "b"}\<close>: the Integer 1 and the String \<^verbatim>\<open>1\<close> are different
  keys (their hash keys differ in kind) with the same rendered text.
\<close>

definition pair_Integer_1 :: "object DictPair" where
  "pair_Integer_1 = DictPair (Integer 1) (String ''a'' 0)"

definition pair_String_1 :: "object DictPair" where
  "pair_String_1 = DictPair (String ''1'' 0) (String ''b'' 0)"

definition Dict_1_1 :: object where
  "Dict_1_1 =
     Dict [(Integer_HashKey (Integer 1), pair_Integer_1),
           (String_HashKey (String ''1'' 0), pair_String_1)] 0"

text \<open>The Dict \<^verbatim>\<open>{"b": 2, "a": 1}\<close>.\<close>

definition Dict_b2_a1 :: object where
  "Dict_b2_a1 =
     Dict [(String_HashKey (String ''b'' 0), DictPair (String ''b'' 0) (Integer 2)),
           (String_HashKey (String ''a'' 0), DictPair (String ''a'' 0) (Integer 1))] 0"

subsection \<open>A formatter for concrete evaluations\<close>

text \<open>
  Concrete evaluations below need a value for the parameter \<open>fmt\<close>. This one agrees with
  \<^verbatim>\<open>strconv.FormatFloat(v, 'f', -1, 64)\<close> on the bit patterns those evaluations use: the
  pattern of 1.0 gives \<^verbatim>\<open>1\<close>, and every NaN (exponent bits all set, a non-zero
  mantissa) gives \<^verbatim>\<open>NaN\<close>. No general theorem depends on it.
\<close>

definition FormatFloat_sample :: "64 word \<Rightarrow> string" where
  "FormatFloat_sample w =
     (if w = 0x3FF0000000000000 then ''1''
      else if 0x7FF0000000000000 < (w AND 0x7FFFFFFFFFFFFFFF) then ''NaN''
      else ''0'')"

section \<open>Properties\<close>

subsection \<open>Basic facts\<close>

lemma decimal_digit: "n < 10 \<Longrightarrow> decimal n = [digit_char n]"
  by (simp add: decimal.simps)

lemma Sprintf_d_1: "Sprintf_d 1 = ''1''"
  by (simp add: Sprintf_d_def decimal_digit digit_char_def)


lemma string_of_byte_ascii: "of_char c < (128 :: nat) \<Longrightarrow> string_of_byte c = [c]"
  by (simp add: string_of_byte_def)

lemma length_string_of_byte:
  "length (string_of_byte c) = (if of_char c < (128 :: nat) then 1 else 2)"
  by (simp add: string_of_byte_def Let_def)

lemma uint64_id: "uint64 v = v"
  by (simp add: uint64_def)

lemma Hashable_HashKey_Type:
  "Hashable_HashKey rk fmt a = Some k \<Longrightarrow> HashKey_Type k = Type a"
  by (cases a) auto

lemma Pairs_lookup_store:
  "Pairs_lookup (Pairs_store k v ps) k' = (if k' = k then Some v else Pairs_lookup ps k')"
  by (simp add: Pairs_lookup_def Pairs_store_def update_conv')

lemma range_Pairs_two:
  "range_Pairs rk [(h1, p1), (h2, p2)] =
     (if rk [(h1, p1), (h2, p2)] h1 \<le> rk [(h1, p1), (h2, p2)] h2 then [p1, p2] else [p2, p1])"
  by (simp add: range_Pairs_def)

lemma filter_eq_distinct: "distinct xs \<Longrightarrow> k \<in> set xs \<Longrightarrow> filter (\<lambda>x. k = x) xs = [k]"
  by (induction xs) (auto simp: filter_empty_conv)

lemma length_takeWhile_nth:
  "distinct (map fst ord) \<Longrightarrow> i < length ord \<Longrightarrow>
   length (takeWhile (\<lambda>e. fst e \<noteq> fst (ord ! i)) ord) = i"
proof (induction ord arbitrary: i)
  case Nil
  then show ?case by simp
next
  case (Cons e es)
  show ?case
  proof (cases i)
    case 0
    then show ?thesis by simp
  next
    case (Suc j)
    with Cons.prems have j: "j < length es" and d: "distinct (map fst es)"
      and "fst e \<notin> fst ` set es" by simp_all
    then have "fst e \<noteq> fst (es ! j)" by (metis imageI nth_mem)
    with Cons.IH [OF d j] Suc show ?thesis by simp
  qed
qed

text \<open>
  The rankings are adequate: the entries of a map (distinct keys) can be visited in every
  order, each by a suitable ranking.
\<close>

lemma range_Pairs_any_order:
  assumes "distinct (map fst ps)" and "mset ord = mset ps"
  shows "\<exists>rk. range_Pairs rk ps = map snd ord"
proof -
  define g :: "HashKey \<times> object DictPair \<Rightarrow> nat"
    where "g e = length (takeWhile (\<lambda>x. fst x \<noteq> fst e) ord)" for e
  from assms have "mset (map fst ord) = mset (map fst ps)" by (metis mset_map)
  with assms(1) have dk: "distinct (map fst ord)"
    using mset_eq_imp_distinct_iff by blast
  then have d_ord: "distinct ord" by (rule distinct_map [THEN iffD1, THEN conjunct1])
  from assms(1) have d_ps: "distinct ps" by (rule distinct_map [THEN iffD1, THEN conjunct1])
  from assms(2) have sets: "set ps = set ord" by (metis set_mset_mset)
  have g_nth: "g (ord ! i) = i" if "i < length ord" for i
    using length_takeWhile_nth [OF dk that] by (simp add: g_def)
  have inj: "g k = g x \<longleftrightarrow> k = x" if "k \<in> set ord" "x \<in> set ord" for k x
    using that g_nth by (metis in_set_conv_nth)
  have "map g ord = [0..<length ord]"
    by (rule nth_equalityI) (simp_all add: g_nth)
  then have sorted: "sorted (map g ord)" by simp
  have "filter (\<lambda>x. g k = g x) ord = filter (\<lambda>x. g k = g x) ps" if "k \<in> set ord" for k
  proof -
    have "filter (\<lambda>x. g k = g x) ord = filter (\<lambda>x. k = x) ord"
      using that inj by (intro filter_cong) auto
    moreover have "filter (\<lambda>x. g k = g x) ps = filter (\<lambda>x. k = x) ps"
      using that inj sets by (intro filter_cong) auto
    ultimately show ?thesis
      using that sets d_ord d_ps by (simp add: filter_eq_distinct)
  qed
  with assms(2) sorted have "sort_key g ps = ord"
    by (intro properties_for_sort_key) auto
  then have "range_Pairs (\<lambda>_ h. length (takeWhile (\<lambda>x. fst x \<noteq> h) ord)) ps = map snd ord"
    by (simp add: range_Pairs_def g_def [abs_def])
  then show ?thesis by blast
qed

lemma calls_add:
  "calls next (n + m) obj =
     (let (rs, obj') = calls next n obj; (rs', obj'') = calls next m obj'
      in (rs @ rs', obj''))"
  by (induction n arbitrary: obj) (simp_all add: Let_def split: prod.splits)

lemma fold_append_keys: "fold (\<lambda>v ks. ks @ [f v]) vs ks0 = ks0 @ map f vs"
  by (induction vs arbitrary: ks0) simp_all

lemma dom_fold_dict:
  "dom (fold (\<lambda>v m. m(f v \<mapsto> v)) vs m0) = dom m0 \<union> f ` set vs"
  by (induction vs arbitrary: m0) auto

subsection \<open>Hash keys\<close>

text \<open>
  C2. Hash keys of different kinds never collide: two hashable values whose kinds differ
  have different hash keys. In particular the hash keys of the Integer 1 and of the Float
  1.0 differ, whatever the float's text, and a map into which both are stored, in either
  order, gives back each one's pair under its own key.
\<close>

theorem HashKey_kinds_distinct:
  "(Type a \<noteq> Type b \<longrightarrow> Hashable_HashKey rk fmt a = Some ka
        \<longrightarrow> Hashable_HashKey rk' fmt' b = Some kb \<longrightarrow> ka \<noteq> kb)
   \<and> (let ki = Integer_HashKey (Integer 1);
           kf = Float_HashKey rk fmt (Float 0x3FF0000000000000)
       in ki \<noteq> kf
          \<and> Pairs_lookup (Pairs_store kf pf (Pairs_store ki pi ps)) ki = Some pi
          \<and> Pairs_lookup (Pairs_store kf pf (Pairs_store ki pi ps)) kf = Some pf
          \<and> Pairs_lookup (Pairs_store ki pi (Pairs_store kf pf ps)) ki = Some pi
          \<and> Pairs_lookup (Pairs_store ki pi (Pairs_store kf pf ps)) kf = Some pf)"
proof -
  have types: "INTEGER_OBJ \<noteq> FLOAT_OBJ"
    by (simp add: INTEGER_OBJ_def FLOAT_OBJ_def)
  have "ka \<noteq> kb"
    if "Type a \<noteq> Type b" "Hashable_HashKey rk fmt a = Some ka"
      "Hashable_HashKey rk' fmt' b = Some kb"
  proof
    assume "ka = kb"
    then have "HashKey_Type ka = HashKey_Type kb" by simp
    with that show False by (simp add: Hashable_HashKey_Type)
  qed
  note kinds = this
  define ki where "ki = Integer_HashKey (Integer 1)"
  define kf where "kf = Float_HashKey rk fmt (Float 0x3FF0000000000000)"
  have ne: "ki \<noteq> kf" "kf \<noteq> ki"
    using types by (auto simp: ki_def kf_def)
  have "Pairs_lookup (Pairs_store kf pf (Pairs_store ki pi ps)) ki = Some pi"
    "Pairs_lookup (Pairs_store kf pf (Pairs_store ki pi ps)) kf = Some pf"
    "Pairs_lookup (Pairs_store ki pi (Pairs_store kf pf ps)) ki = Some pi"
    "Pairs_lookup (Pairs_store ki pi (Pairs_store kf pf ps)) kf = Some pf"
    using ne by (simp_all add: Pairs_lookup_store)
  with ne kinds show ?thesis
    unfolding Let_def ki_def kf_def by blast
qed

theorem HashKey_kinds_distinct_witness:
  "Type (Integer 1) \<noteq> Type (Float 0x3FF0000000000000)
   \<and> Hashable_HashKey stored_order FormatFloat_sample (Integer 1)
       = Some \<lparr>HashKey_Type = ''NAMBA'', HashKey_Value = 1\<rparr>
   \<and> Hashable_HashKey stored_order FormatFloat_sample (Float 0x3FF0000000000000)
       = Some \<lparr>HashKey_Type = ''DESIMALI'', HashKey_Value = fnv64a ''1''\<rparr>
   \<and> \<lparr>HashKey_Type = ''NAMBA'', HashKey_Value = 1\<rparr>
       \<noteq> \<lparr>HashKey_Type = ''DESIMALI'', HashKey_Value = fnv64a ''1''\<rparr>"
  using HashKey_kinds_distinct [of "Integer 1" "Float 0x3FF0000000000000" stored_order FormatFloat_sample
      "\<lparr>HashKey_Type = ''NAMBA'', HashKey_Value = 1\<rparr>" stored_order FormatFloat_sample
      "\<lparr>HashKey_Type = ''DESIMALI'', HashKey_Value = fnv64a ''1''\<rparr>"]
  by (simp add: INTEGER_OBJ_def FLOAT_OBJ_def FormatFloat_sample_def uint64_id)

text \<open>
  C3. Two Integers have the same value exactly when they have the same hash key, and the
  digest of an Integer is the bit pattern of its value.
\<close>

theorem Integer_HashKey_injective:
  "(sint a = sint b) = (Integer_HashKey (Integer a) = Integer_HashKey (Integer b))
   \<and> HashKey_Value (Integer_HashKey (Integer a)) = a"
  by (auto simp: uint64_id intro: signed_word_eqI)

text \<open>
  C4. The digest of a Float is the FNV-1a hash of its rendered text, not of its bits: two
  Floats that render to the same text have the same hash key, whatever their bit patterns.
\<close>

theorem Float_HashKey_of_text:
  "HashKey_Value (Float_HashKey rk fmt (Float a)) = fnv64a (Inspect rk fmt (Float a))
   \<and> (Inspect rk fmt (Float a) = Inspect rk fmt (Float b)
        \<longrightarrow> Float_HashKey rk fmt (Float a) = Float_HashKey rk fmt (Float b))"
  by simp

theorem Float_HashKey_of_text_witness:
  "(0x7FF8000000000000 :: 64 word) \<noteq> 0x7FF8000000000001
   \<and> Inspect stored_order FormatFloat_sample (Float 0x7FF8000000000000) = ''NaN''
   \<and> Inspect stored_order FormatFloat_sample (Float 0x7FF8000000000001) = ''NaN''
   \<and> Float_HashKey stored_order FormatFloat_sample (Float 0x7FF8000000000000)
       = Float_HashKey stored_order FormatFloat_sample (Float 0x7FF8000000000001)"
  using Float_HashKey_of_text [of stored_order FormatFloat_sample "0x7FF8000000000000" "0x7FF8000000000001"]
  by (simp add: FormatFloat_sample_def)

subsection \<open>Rendering\<close>








subsection \<open>Iteration\<close>




lemma Dict_Next_scan_payload:
  "\<exists>r off'. Dict_Next_scan dict keys idx ps off = (r, Dict ps off')"
  by (induction keys arbitrary: idx) (auto split: option.splits)

lemma Dict_Next_scan_exhausted:
  "set keys \<subseteq> dom dict \<Longrightarrow> Dict_Next_scan dict keys idx ps off = (None, obj') \<Longrightarrow>
   obj' = Dict ps off"
  by (induction keys arbitrary: idx) (auto split: option.splits if_splits)

lemma Dict_Next_payload: "\<exists>r off'. Dict_Next rk fmt (Dict ps off) = (r, Dict ps off')"
  by (simp add: Let_def Dict_Next_scan_payload)

lemma Dict_Next_exhausted:
  assumes "Dict_Next rk fmt (Dict ps off) = (None, obj')"
  shows "obj' = Dict ps off"
proof -
  let ?f = "\<lambda>v. Inspect rk fmt (Key v)"
  let ?vs = "range_Pairs rk ps"
  have "set (sort_Strings (fold (\<lambda>v ks. ks @ [?f v]) ?vs []))
          \<subseteq> dom (fold (\<lambda>v m. m(?f v \<mapsto> v)) ?vs Map.empty)"
    by (simp add: sort_Strings_def fold_append_keys dom_fold_dict)
  then show ?thesis
    using assms Dict_Next_scan_exhausted by (simp add: Let_def)
qed

lemma Next_payload:
  "(\<exists>r off'. Next rk fmt (String v off) = Some (r, String v off'))
   \<and> (\<exists>r off'. Next rk fmt (Array es off) = Some (r, Array es off'))
   \<and> (\<exists>r off'. Next rk fmt (Dict ps off) = Some (r, Dict ps off'))"
  using Dict_Next_payload [of rk fmt ps off] by (simp add: Let_def)

lemma run_calls_String: "\<exists>off'. run_calls fmt cs (String v off) = Some (String v off')"
proof (induction cs arbitrary: off)
  case Nil
  show ?case by simp
next
  case (Cons c cs)
  show ?case
  proof (cases c)
    case (Call_Next rk)
    obtain r off1 where "Next rk fmt (String v off) = Some (r, String v off1)"
      using Next_payload by blast
    with Cons.IH [of off1] Call_Next show ?thesis by simp
  next
    case Call_Reset
    with Cons.IH [of 0] show ?thesis by simp
  qed
qed

lemma run_calls_Array: "\<exists>off'. run_calls fmt cs (Array es off) = Some (Array es off')"
proof (induction cs arbitrary: off)
  case Nil
  show ?case by simp
next
  case (Cons c cs)
  show ?case
  proof (cases c)
    case (Call_Next rk)
    obtain r off1 where "Next rk fmt (Array es off) = Some (r, Array es off1)"
      using Next_payload by blast
    with Cons.IH [of off1] Call_Next show ?thesis by simp
  next
    case Call_Reset
    with Cons.IH [of 0] show ?thesis by simp
  qed
qed

lemma run_calls_Dict: "\<exists>off'. run_calls fmt cs (Dict ps off) = Some (Dict ps off')"
proof (induction cs arbitrary: off)
  case Nil
  show ?case by simp
next
  case (Cons c cs)
  show ?case
  proof (cases c)
    case (Call_Next rk)
    obtain r off1 where "Next rk fmt (Dict ps off) = Some (r, Dict ps off1)"
      using Next_payload by blast
    with Cons.IH [of off1] Call_Next show ?thesis by simp
  next
    case Call_Reset
    with Cons.IH [of 0] show ?thesis by simp
  qed
qed

lemma Next_exhausted: "Next rk fmt obj = Some (None, obj') \<Longrightarrow> obj' = obj"
proof (cases obj)
  case (Dict ps off)
  assume "Next rk fmt obj = Some (None, obj')"
  with Dict show ?thesis using Dict_Next_exhausted by simp
qed (auto simp: Let_def split: if_splits)

text \<open>
  C10. Any sequence of Next() and Reset() calls on a String, an Array or a Dict runs
  through and leaves an object with the same payload (the bytes, the elements, the
  pairs): only the cursor may differ. A Next() call that returns the absent pair leaves
  the object, cursor included, as it was.
\<close>

theorem iteration_keeps_payload:
  "(\<exists>off'. run_calls fmt cs (String v off) = Some (String v off'))
   \<and> (\<exists>off'. run_calls fmt cs (Array es off) = Some (Array es off'))
   \<and> (\<exists>off'. run_calls fmt cs (Dict ps off) = Some (Dict ps off'))
   \<and> (Next rk fmt obj = Some (None, obj') \<longrightarrow> obj' = obj)"
  using run_calls_String run_calls_Array run_calls_Dict Next_exhausted by blast

theorem iteration_keeps_payload_witness:
  "Next stored_order FormatFloat_sample (Array [Null] 1) = Some (None, Array [Null] 1)
   \<and> run_calls FormatFloat_sample [Call_Next stored_order, Call_Next stored_order, Call_Reset,
        Call_Next digest_order] (Array [Null] 0) = Some (Array [Null] 1)"
  using iteration_keeps_payload [of FormatFloat_sample "[]" "[]" 0 "[]" "[]" stored_order
      "Array [Null] 1" "Array [Null] 1"]
  by simp

text \<open>
  When the rendered texts of the keys are pairwise different, \<^verbatim>\<open>Dict.Next\<close> returns
  the pair at position \<open>offset\<close> of the pairs sorted by the text of their keys, and a
  pass after Reset() yields every pair once, in increasing order of these texts, and then
  the absent pair.
\<close>

lemma fold_dict_other:
  "k \<notin> f ` set vs \<Longrightarrow> fold (\<lambda>v m. m(f v \<mapsto> v)) vs m0 k = m0 k"
  by (induction vs arbitrary: m0) auto

lemma fold_dict_distinct:
  "distinct (map f vs) \<Longrightarrow> p \<in> set vs \<Longrightarrow> fold (\<lambda>v m. m(f v \<mapsto> v)) vs m0 (f p) = Some p"
proof (induction vs arbitrary: m0)
  case Nil
  then show ?case by simp
next
  case (Cons v vs)
  show ?case
  proof (cases "p = v")
    case True
    from Cons.prems(1) have "f v \<notin> f ` set vs" by simp
    then have "fold (\<lambda>v m. m(f v \<mapsto> v)) vs (m0(f v \<mapsto> v)) (f v) = (m0(f v \<mapsto> v)) (f v)"
      by (rule fold_dict_other)
    moreover have "fold (\<lambda>v m. m(f v \<mapsto> v)) (v # vs) m0 (f v)
        = fold (\<lambda>v m. m(f v \<mapsto> v)) vs (m0(f v \<mapsto> v)) (f v)"
      by (simp only: fold.simps comp_apply)
    ultimately have "fold (\<lambda>v m. m(f v \<mapsto> v)) (v # vs) m0 (f v) = Some v"
      by (simp only: fun_upd_same)
    with True show ?thesis by (simp only:)
  next
    case False
    with Cons.prems have "p \<in> set vs" "distinct (map f vs)" by simp_all
    then show ?thesis using Cons.IH by simp
  qed
qed

lemma Dict_Next_scan_nth:
  "idx \<le> off \<Longrightarrow>
   Dict_Next_scan dict keys idx ps off =
     (if off - idx < length keys
      then (case dict (keys ! (off - idx)) of
              Some pair \<Rightarrow> (Some (Key pair, Value pair), Dict ps (off + 1))
            | None \<Rightarrow> (None, Dict ps (off + 1)))
      else (None, Dict ps off))"
proof (induction keys arbitrary: idx)
  case Nil
  show ?case by simp
next
  case (Cons k ks)
  show ?case
  proof (cases "off = idx")
    case True
    then show ?thesis by (auto split: option.split)
  next
    case False
    with Cons.prems have "Suc idx \<le> off" by simp
    from Cons.IH [OF this] False Cons.prems show ?thesis
      by (simp add: Suc_diff_Suc [symmetric] del: Suc_diff_Suc)
  qed
qed

lemma Dict_Next_distinct_texts:
  assumes "distinct (map (\<lambda>e. Inspect rk fmt (Key (snd e))) ps)"
  shows "Dict_Next rk fmt (Dict ps off) =
     (if off < length ps
      then (let pair = sort_key (\<lambda>p. Inspect rk fmt (Key p)) (map snd ps) ! off
            in (Some (Key pair, Value pair), Dict ps (off + 1)))
      else (None, Dict ps off))"
proof -
  let ?f = "\<lambda>p. Inspect rk fmt (Key p)"
  let ?vs = "range_Pairs rk ps"
  let ?ys = "sort_key ?f (map snd ps)"
  let ?dict = "fold (\<lambda>v m. m(?f v \<mapsto> v)) ?vs Map.empty"
  have "mset ?vs = mset (map snd ps)" by simp
  then have "mset (map ?f ?vs) = mset (map ?f (map snd ps))" by (metis mset_map)
  moreover from assms have "distinct (map ?f (map snd ps))" by (simp add: comp_def)
  ultimately have dist: "distinct (map ?f ?vs)"
    using mset_eq_imp_distinct_iff by blast
  have "sort (map ?f ?vs) = map ?f ?ys"
    by (rule properties_for_sort) simp_all
  then have keys: "sort_Strings (fold (\<lambda>v ks. ks @ [?f v]) ?vs []) = map ?f ?ys"
    by (simp add: sort_Strings_def fold_append_keys)
  have "?dict (map ?f ?ys ! off) = Some (?ys ! off)" if "off < length ps"
  proof -
    have "?ys ! off \<in> set ?ys" by (rule nth_mem) (simp add: that)
    then have "?ys ! off \<in> set ?vs" by simp
    from fold_dict_distinct [OF dist this] that show ?thesis by simp
  qed
  then show ?thesis
    by (simp add: keys Let_def Dict_Next_scan_nth)
qed

lemma calls_Dict_Next_exhausted:
  assumes "distinct (map (\<lambda>e. Inspect rk fmt (Key (snd e))) ps)"
  shows "length ps \<le> off \<Longrightarrow>
    calls (Dict_Next rk fmt) k (Dict ps off) = (replicate k None, Dict ps off)"
  by (induction k) (simp_all add: Dict_Next_distinct_texts [OF assms] del: Dict_Next.simps)

lemma calls_Dict_Next_active:
  assumes "distinct (map (\<lambda>e. Inspect rk fmt (Key (snd e))) ps)"
  shows "off + k \<le> length ps \<Longrightarrow>
   calls (Dict_Next rk fmt) k (Dict ps off) =
     (map (\<lambda>i. Some (Key (sort_key (\<lambda>p. Inspect rk fmt (Key p)) (map snd ps) ! i),
                      Value (sort_key (\<lambda>p. Inspect rk fmt (Key p)) (map snd ps) ! i)))
        [off..<off + k],
      Dict ps (off + k))"
proof (induction k arbitrary: off)
  case 0
  show ?case by simp
next
  case (Suc k)
  from Suc.prems have "off < length ps" "Suc off + k \<le> length ps" by simp_all
  moreover have "[off..<off + Suc k] = off # [Suc off..<Suc off + k]"
    by (simp add: upt_conv_Cons del: upt_Suc)
  ultimately show ?case
    using Suc.IH [of "Suc off"]
    by (simp add: Let_def Dict_Next_distinct_texts [OF assms] del: upt_Suc Dict_Next.simps)
qed

lemma Dict_iteration_distinct_texts:
  assumes "distinct (map (\<lambda>e. Inspect rk fmt (Key (snd e))) ps)"
  shows "calls (Dict_Next rk fmt) (length ps + m) (Dict_Reset (Dict ps off)) =
     (map (\<lambda>p. Some (Key p, Value p)) (sort_key (\<lambda>p. Inspect rk fmt (Key p)) (map snd ps))
        @ replicate m None,
      Dict ps (length ps))"
proof -
  let ?ys = "sort_key (\<lambda>p. Inspect rk fmt (Key p)) (map snd ps)"
  have "map (\<lambda>i. Some (Key (?ys ! i), Value (?ys ! i))) [0..<length ps]
          = map (\<lambda>p. Some (Key p, Value p)) (map (\<lambda>i. ?ys ! i) [0..<length ?ys])"
    by simp
  also have "\<dots> = map (\<lambda>p. Some (Key p, Value p)) ?ys"
    by (simp only: map_nth)
  finally show ?thesis
    using calls_Dict_Next_active [OF assms, of 0 "length ps"]
    by (simp add: calls_add calls_Dict_Next_exhausted [OF assms] del: Dict_Next.simps)
qed

text \<open>
  The Dict \<^verbatim>\<open>{"b": 2, "a": 1}\<close> is traversed from \<^verbatim>\<open>a\<close> to \<^verbatim>\<open>b\<close>, in whatever
  order the map is visited.
\<close>

lemma Dict_b2_a1_iteration:
  "fst (calls (Dict_Next rk fmt) 3 (Dict_Reset Dict_b2_a1))
     = [Some (String ''a'' 0, Integer 1), Some (String ''b'' 0, Integer 2), None]"
  by (simp add: Dict_b2_a1_def range_Pairs_two sort_Strings_def Let_def numeral_3_eq_3)

text \<open>
  C1 fails on the code. \<^verbatim>\<open>Dict.Next\<close> finds the pair to return in a map from rendered
  key to pair, in which two keys with the same text share one entry. On the Dict
  \<^verbatim>\<open>{1: "a", "1": "b"}\<close>, when the calls of a pass visit the map in the same order, both
  steps of the pass yield the same pair, the one visited last, and the other pair is never
  yielded.
\<close>

theorem Dict_iteration_repeats:
  "fst (calls (Dict_Next rk fmt) 3 (Dict_Reset Dict_1_1))
     \<in> {[Some (Key pair_String_1, Value pair_String_1),
          Some (Key pair_String_1, Value pair_String_1), None],
         [Some (Key pair_Integer_1, Value pair_Integer_1),
          Some (Key pair_Integer_1, Value pair_Integer_1), None]}"
  by (simp add: Dict_1_1_def pair_Integer_1_def pair_String_1_def range_Pairs_two Sprintf_d_1
      sort_Strings_def Let_def numeral_3_eq_3)

end
